theory Spec2Isabelle
  imports Main "HOL-Library.Word"
begin

section \<open>Python values and exceptions\<close>

text \<open>
  The exceptions the modelled code can raise, as values. \<open>StructError\<close> is
  \<^verbatim>\<open>struct.error\<close>; \<open>Exception\<close> carries the message of a plain
  \<^verbatim>\<open>raise Exception('...')\<close>; \<open>KeyError\<close> carries the missing key.
\<close>

datatype error =
    KeyError string
  | StructError
  | ValueError
  | OverflowError
  | TypeError
  | UnicodeEncodeError
  | UnicodeDecodeError
  | IOError
  | AttributeError
  | Exception string

type_synonym byte = "8 word"

section \<open>geodatabr/core/types.py: the Bytes buffer\<close>

subsection \<open>io.BytesIO: one buffer, one cursor\<close>

text \<open>
  \<^verbatim>\<open>class Bytes(io.BytesIO)\<close> inherits the buffer and its single cursor, shared by
  reads and writes. A write stores at the cursor (overwriting, then extending; a cursor
  beyond the end is first padded with zero bytes) and advances it; a write of no bytes
  changes nothing. A read returns at most the requested number of bytes from the cursor
  (all the rest for a negative size) and advances by what it returned.
\<close>

record bytesio =
  buf :: "byte list"
  pos :: nat

definition BytesIO :: bytesio where
  "BytesIO = \<lparr>buf = [], pos = 0\<rparr>"

definition bio_write :: "byte list \<Rightarrow> bytesio \<Rightarrow> bytesio" where
  "bio_write bs s =
     (if bs = [] then s
      else let padded = buf s @ replicate (pos s - length (buf s)) 0
           in \<lparr>buf = take (pos s) padded @ bs @ drop (pos s + length bs) padded,
               pos = pos s + length bs\<rparr>)"

definition bio_read :: "int \<Rightarrow> bytesio \<Rightarrow> byte list \<times> bytesio" where
  "bio_read n s =
     (let rest = drop (pos s) (buf s);
          got = (if n < 0 then rest else take (nat n) rest)
      in (got, s\<lparr>pos := pos s + length got\<rparr>))"

definition seek :: "nat \<Rightarrow> bytesio \<Rightarrow> bytesio" where
  "seek n s = s\<lparr>pos := n\<rparr>"

subsection \<open>The struct formats the class uses\<close>

text \<open>
  What the struct module does lies outside the repository; it is modelled per format
  string. The byte order of the native format \<^verbatim>\<open>'i'\<close> is the platform's, and the
  conversion between a Python float (a binary64 pattern) and the binary32 pattern that
  \<^verbatim>\<open>'!f'\<close> stores is floating-point arithmetic: both are parameters.
\<close>

type_synonym pyfloat = "64 word"

record platform =
  little_endian :: bool
  to_binary32 :: "pyfloat \<Rightarrow> 32 word option"
  of_binary32 :: "32 word \<Rightarrow> pyfloat"

definition be32 :: "int \<Rightarrow> byte list" where
  "be32 v =
     (let u = v mod 2 ^ 32
      in [of_int (u div 2 ^ 24), of_int (u div 2 ^ 16 mod 256),
          of_int (u div 2 ^ 8 mod 256), of_int (u mod 256)])"

definition be_value :: "byte list \<Rightarrow> int" where
  "be_value bs = foldl (\<lambda>acc b. acc * 256 + uint b) 0 bs"

definition from_be32 :: "byte list \<Rightarrow> int" where
  "from_be32 bs = (let u = be_value bs in if u < 2 ^ 31 then u else u - 2 ^ 32)"

definition in_int32 :: "int \<Rightarrow> bool" where
  "in_int32 v \<longleftrightarrow> - (2 ^ 31) \<le> v \<and> v < 2 ^ 31"

text \<open>\<^verbatim>\<open>struct.pack('!i', v)\<close>: four bytes, most significant first; out of range raises.\<close>

definition pack_net_i :: "int \<Rightarrow> error + byte list" where
  "pack_net_i v = (if in_int32 v then Inr (be32 v) else Inl StructError)"

text \<open>\<^verbatim>\<open>struct.pack('i', v)\<close>: the same four bytes in the platform's order.\<close>

definition pack_i :: "platform \<Rightarrow> int \<Rightarrow> error + byte list" where
  "pack_i pf v =
     (if in_int32 v then Inr (if little_endian pf then rev (be32 v) else be32 v)
      else Inl StructError)"

text \<open>\<^verbatim>\<open>struct.pack('!f', x)\<close>: the binary32 pattern, most significant byte first; a
  value too large for binary32 raises OverflowError.\<close>

definition pack_net_f :: "platform \<Rightarrow> pyfloat \<Rightarrow> error + byte list" where
  "pack_net_f pf x =
     (case to_binary32 pf x of
        None \<Rightarrow> Inl OverflowError
      | Some w \<Rightarrow> Inr (be32 (uint w)))"

text \<open>\<^verbatim>\<open>struct.pack('c', b)\<close>: a bytes object of length one, or struct.error.\<close>

definition pack_c :: "byte list \<Rightarrow> error + byte list" where
  "pack_c b = (if length b = 1 then Inr b else Inl StructError)"

text \<open>
  The argument of \<^verbatim>\<open>writeString\<close>: annotated \<^verbatim>\<open>str\<close> (a sequence of code points);
  a caller can also hand it a bytes object.
\<close>

datatype pystring = Str "nat list" | Bytes "byte list"

definition len :: "pystring \<Rightarrow> nat" where
  "len v = (case v of Str cs \<Rightarrow> length cs | Bytes bs \<Rightarrow> length bs)"

text \<open>\<^verbatim>\<open>struct.pack('<n>s', v)\<close>: struct.error unless \<open>v\<close> is a bytes object, which is
  cut or zero-padded to \<open>n\<close> bytes.\<close>

definition pack_s :: "nat \<Rightarrow> pystring \<Rightarrow> error + byte list" where
  "pack_s n v =
     (case v of
        Str cs \<Rightarrow> Inl StructError
      | Bytes bs \<Rightarrow> Inr (take n bs @ replicate (n - length bs) 0))"

text \<open>\<^verbatim>\<open>struct.unpack\<close> raises struct.error unless the buffer has the format's size.\<close>

definition unpack_c :: "byte list \<Rightarrow> error + byte list" where
  "unpack_c d = (if length d = 1 then Inr d else Inl StructError)"

definition unpack_net_i :: "byte list \<Rightarrow> error + int" where
  "unpack_net_i d = (if length d = 4 then Inr (from_be32 d) else Inl StructError)"

definition unpack_i :: "platform \<Rightarrow> byte list \<Rightarrow> error + int" where
  "unpack_i pf d =
     (if length d = 4 then Inr (from_be32 (if little_endian pf then rev d else d))
      else Inl StructError)"

definition unpack_net_f :: "platform \<Rightarrow> byte list \<Rightarrow> error + pyfloat" where
  "unpack_net_f pf d =
     (if length d = 4 then Inr (of_binary32 pf (word_of_int (from_be32 d)))
      else Inl StructError)"

text \<open>\<^verbatim>\<open>struct.unpack('<n>s', d)\<close>: a negative count is a bad format string.\<close>

definition unpack_s :: "int \<Rightarrow> byte list \<Rightarrow> error + pystring" where
  "unpack_s n d =
     (if n < 0 then Inl StructError
      else if int (length d) = n then Inr (Bytes d)
      else Inl StructError)"

subsection \<open>chr and str.encode('utf-8')\<close>

text \<open>\<^verbatim>\<open>chr(v)\<close>: a code point in \<open>range(0x110000)\<close>; an int that does not fit a C int
  is an OverflowError, any other value outside the range a ValueError.\<close>

definition chr :: "int \<Rightarrow> error + nat" where
  "chr v =
     (if v < - (2 ^ 31) \<or> 2 ^ 31 \<le> v then Inl OverflowError
      else if v < 0 \<or> 1114112 \<le> v then Inl ValueError
      else Inr (nat v))"

definition encode_utf8 :: "nat \<Rightarrow> error + byte list" where
  "encode_utf8 c =
     (if c < 128 then Inr [of_nat c]
      else if c < 2048 then Inr [of_nat (192 + c div 64), of_nat (128 + c mod 64)]
      else if 55296 \<le> c \<and> c < 57344 then Inl UnicodeEncodeError
      else if c < 65536 then
        Inr [of_nat (224 + c div 4096), of_nat (128 + c div 64 mod 64),
             of_nat (128 + c mod 64)]
      else
        Inr [of_nat (240 + c div 262144), of_nat (128 + c div 4096 mod 64),
             of_nat (128 + c div 64 mod 64), of_nat (128 + c mod 64)])"

subsection \<open>The methods of Bytes\<close>

text \<open>
  Every method takes the buffer and returns the buffer with its result: the object
  outlives an exception, and what a failed call left in it is part of what the call did.
\<close>

type_synonym 'a io = "bytesio \<Rightarrow> (error + 'a) \<times> bytesio"

definition bind_io :: "'a io \<Rightarrow> ('a \<Rightarrow> 'b io) \<Rightarrow> 'b io" where
  "bind_io m f s = (case m s of (Inl e, s') \<Rightarrow> (Inl e, s') | (Inr a, s') \<Rightarrow> f a s')"

text \<open>\<^verbatim>\<open>self.write(struct.pack(_format, value))\<close>: a failed pack writes nothing.\<close>

definition pack :: "error + byte list \<Rightarrow> unit io" where
  "pack packed s =
     (case packed of Inl e \<Rightarrow> (Inl e, s) | Inr bs \<Rightarrow> (Inr (), bio_write bs s))"

text \<open>\<^verbatim>\<open>struct.unpack(_format, self.read(size))[0]\<close>: the read moves the cursor before
  the unpack can fail.\<close>

definition unpack :: "(byte list \<Rightarrow> error + 'a) \<Rightarrow> int \<Rightarrow> 'a io" where
  "unpack unpacker n s = (case bio_read n s of (d, s') \<Rightarrow> (unpacker d, s'))"

text \<open>\<^verbatim>\<open>ord(b)\<close> of a bytes object: the value of its one byte, TypeError for any other
  length.\<close>

definition ord :: "byte list \<Rightarrow> error + int" where
  "ord b = (case b of [x] \<Rightarrow> Inr (uint x) | _ \<Rightarrow> Inl TypeError)"

definition readByte :: "int io" where
  "readByte = bind_io (unpack unpack_c 1) (\<lambda>b s. (ord b, s))"

definition readBoolean :: "bool io" where
  "readBoolean = bind_io readByte (\<lambda>v s. (Inr (v = 1), s))"

definition readInt :: "int io" where
  "readInt = unpack unpack_net_i 4"

definition readFloat :: "platform \<Rightarrow> pyfloat io" where
  "readFloat pf = unpack (unpack_net_f pf) 4"

definition readString :: "platform \<Rightarrow> pystring io" where
  "readString pf =
     bind_io (unpack (unpack_i pf) 4) (\<lambda>n. unpack (unpack_s n) n)"

definition writeByte :: "int \<Rightarrow> unit io" where
  "writeByte v s =
     (case chr v of
        Inl e \<Rightarrow> (Inl e, s)
      | Inr c \<Rightarrow>
          (case encode_utf8 c of
             Inl e \<Rightarrow> (Inl e, s)
           | Inr b \<Rightarrow> pack (pack_c b) s))"

definition writeBoolean :: "bool \<Rightarrow> unit io" where
  "writeBoolean v = writeByte (if v then 1 else 0)"

definition writeInt :: "int \<Rightarrow> unit io" where
  "writeInt v = pack (pack_net_i v)"

definition writeFloat :: "platform \<Rightarrow> pyfloat \<Rightarrow> unit io" where
  "writeFloat pf v = pack (pack_net_f pf v)"

definition writeString :: "platform \<Rightarrow> pystring \<Rightarrow> unit io" where
  "writeString pf v =
     (let n = len v
      in bind_io (pack (pack_i pf (int n))) (\<lambda>_. pack (pack_s n v)))"

subsection \<open>Writing four values and reading them back\<close>

text \<open>
  The usage the specification describes: on one buffer, write a boolean, an integer, a
  float and a string, move the cursor back to the start, and read in the same order.
\<close>

definition write_all :: "platform \<Rightarrow> bool \<Rightarrow> int \<Rightarrow> pyfloat \<Rightarrow> pystring \<Rightarrow> unit io" where
  "write_all pf b i x v =
     bind_io (writeBoolean b) (\<lambda>_.
     bind_io (writeInt i) (\<lambda>_.
     bind_io (writeFloat pf x) (\<lambda>_. writeString pf v)))"

definition read_all :: "platform \<Rightarrow> (bool \<times> int \<times> pyfloat \<times> pystring) io" where
  "read_all pf =
     bind_io readBoolean (\<lambda>b.
     bind_io readInt (\<lambda>i.
     bind_io (readFloat pf) (\<lambda>x.
     bind_io (readString pf) (\<lambda>v s. (Inr (b, i, x, v), s)))))"

definition write_then_read ::
  "platform \<Rightarrow> bool \<Rightarrow> int \<Rightarrow> pyfloat \<Rightarrow> pystring \<Rightarrow> (bool \<times> int \<times> pyfloat \<times> pystring) io" where
  "write_then_read pf b i x v =
     bind_io (write_all pf b i x v) (\<lambda>_.
     bind_io (\<lambda>s. (Inr (), seek 0 s)) (\<lambda>_. read_all pf))"

text \<open>The binary64 pattern of the float 3.5 and the code points of the text "sp".\<close>

definition float_3_5 :: pyfloat where
  "float_3_5 = 0x400C000000000000"

definition text_sp :: "nat list" where
  "text_sp = [115, 112]"

section \<open>dtb/core/entities.py: the territorial data and its export\<close>

subsection \<open>Values of a row (Python 2)\<close>

text \<open>
  The columns are integers and strings. Python 2 has two string types: \<^verbatim>\<open>str\<close>, a byte
  string, and \<^verbatim>\<open>unicode\<close>, a sequence of code points. \<^verbatim>\<open>unicode(s)\<close> decodes a byte
  string and \<^verbatim>\<open>str(u)\<close> encodes a unicode string with the ASCII codec, which raises on
  anything beyond 7 bits.
\<close>

datatype pyval = IntV int | StrV string | UnicodeV "nat list"

definition ascii_str :: "string \<Rightarrow> bool" where
  "ascii_str s = list_all (\<lambda>c. (of_char c :: nat) < 128) s"

definition ascii_unicode :: "nat list \<Rightarrow> bool" where
  "ascii_unicode u = list_all (\<lambda>c. c < 128) u"

definition isinstance_str :: "pyval \<Rightarrow> bool" where
  "isinstance_str v = (case v of StrV s \<Rightarrow> True | _ \<Rightarrow> False)"

definition isinstance_unicode :: "pyval \<Rightarrow> bool" where
  "isinstance_unicode v = (case v of UnicodeV u \<Rightarrow> True | _ \<Rightarrow> False)"

fun digits :: "nat \<Rightarrow> string" where
  "digits n =
     (if n < 10 then [''0123456789'' ! n]
      else digits (n div 10) @ [''0123456789'' ! (n mod 10)])"

definition str_int :: "int \<Rightarrow> string" where
  "str_int i = (if i < 0 then CHR ''-'' # digits (nat (- i)) else digits (nat i))"

text \<open>\<^verbatim>\<open>unicode(v)\<close> and \<^verbatim>\<open>str(v)\<close>.\<close>

definition unicode :: "pyval \<Rightarrow> error + pyval" where
  "unicode v =
     (case v of
        IntV i \<Rightarrow> Inr (UnicodeV (map of_char (str_int i)))
      | StrV s \<Rightarrow> (if ascii_str s then Inr (UnicodeV (map of_char s)) else Inl UnicodeDecodeError)
      | UnicodeV u \<Rightarrow> Inr (UnicodeV u))"

definition str :: "pyval \<Rightarrow> error + pyval" where
  "str v =
     (case v of
        IntV i \<Rightarrow> Inr (StrV (str_int i))
      | StrV s \<Rightarrow> Inr (StrV s)
      | UnicodeV u \<Rightarrow> (if ascii_unicode u then Inr (StrV (map char_of u)) else Inl UnicodeEncodeError))"

text \<open>
  Equality of dictionary keys: a byte string equals a unicode string when it is ASCII
  and has the same characters; an integer equals no string.
\<close>

fun py_eq :: "pyval \<Rightarrow> pyval \<Rightarrow> bool" where
  "py_eq (IntV a) (IntV b) = (a = b)"
| "py_eq (StrV a) (StrV b) = (a = b)"
| "py_eq (UnicodeV a) (UnicodeV b) = (a = b)"
| "py_eq (StrV a) (UnicodeV b) = (ascii_str a \<and> map of_char a = b)"
| "py_eq (UnicodeV a) (StrV b) = (ascii_str b \<and> map of_char b = a)"
| "py_eq _ _ = False"

subsection \<open>OrderedDict\<close>

text \<open>
  An OrderedDict is the list of its items in insertion order. Assigning to a key that is
  already there replaces the value in its place and keeps the key object; a new key goes
  to the end. Deleting or reading a key that is not there raises KeyError.
\<close>

type_synonym ('k, 'v) odict = "('k \<times> 'v) list"

fun od_set :: "('k \<Rightarrow> 'k \<Rightarrow> bool) \<Rightarrow> 'k \<Rightarrow> 'v \<Rightarrow> ('k, 'v) odict \<Rightarrow> ('k, 'v) odict" where
  "od_set eq k v [] = [(k, v)]"
| "od_set eq k v ((k', v') # kvs) =
     (if eq k' k then (k', v) # kvs else (k', v') # od_set eq k v kvs)"

definition od_get :: "string \<Rightarrow> (string, 'v) odict \<Rightarrow> error + 'v" where
  "od_get k kvs = (case map_of kvs k of None \<Rightarrow> Inl (KeyError k) | Some v \<Rightarrow> Inr v)"

definition od_del :: "string \<Rightarrow> (string, 'v) odict \<Rightarrow> error + (string, 'v) odict" where
  "od_del k kvs =
     (if k \<in> set (map fst kvs) then Inr (filter (\<lambda>kv. fst kv \<noteq> k) kvs) else Inl (KeyError k))"

subsection \<open>The six entities\<close>

datatype entity = Uf | Mesorregiao | Microrregiao | Municipio | Distrito | Subdistrito

fun table :: "entity \<Rightarrow> string" where
  "table Uf = ''uf''"
| "table Mesorregiao = ''mesorregiao''"
| "table Microrregiao = ''microrregiao''"
| "table Municipio = ''municipio''"
| "table Distrito = ''distrito''"
| "table Subdistrito = ''subdistrito''"

fun columns :: "entity \<Rightarrow> string list" where
  "columns Uf = [''id'', ''nome'']"
| "columns Mesorregiao = [''id'', ''id_uf'', ''nome'']"
| "columns Microrregiao = [''id'', ''id_mesorregiao'', ''id_uf'', ''nome'']"
| "columns Municipio = [''id'', ''id_microrregiao'', ''id_mesorregiao'', ''id_uf'', ''nome'']"
| "columns Distrito =
     [''id'', ''id_municipio'', ''id_microrregiao'', ''id_mesorregiao'', ''id_uf'', ''nome'']"
| "columns Subdistrito =
     [''id'', ''id_distrito'', ''id_municipio'', ''id_microrregiao'', ''id_mesorregiao'',
      ''id_uf'', ''nome'']"

definition entities :: "entity list" where
  "entities = [Uf, Mesorregiao, Microrregiao, Municipio, Distrito, Subdistrito]"

subsection \<open>TerritorialData\<close>

text \<open>
  A row is indexed by column name (\<^verbatim>\<open>row[column]\<close>); \<^verbatim>\<open>_dict\<close> maps a table name to
  the list of its rows. The parser that fills \<^verbatim>\<open>_dict\<close> is not part of these sources:
  a parsed tree is any value of \<open>td_dict\<close>.
\<close>

type_synonym row = "string \<rightharpoonup> pyval"

record base_info =
  year :: int

record territorial_data =
  td_base :: base_info
  td_name :: string
  td_cols :: "string list"
  td_rows :: "row list"
  td_dict :: "string \<rightharpoonup> row list"
  td_rawdata :: "string option"

definition TerritorialData :: "base_info \<Rightarrow> territorial_data" where
  "TerritorialData b =
     \<lparr>td_base = b, td_name = ''dtb_'' @ str_int (year b), td_cols = [], td_rows = [],
      td_dict = Map.empty, td_rawdata = None\<rparr>"

definition load :: "string \<Rightarrow> territorial_data \<Rightarrow> territorial_data" where
  "load rawdata self = self\<lparr>td_rawdata := Some rawdata\<rparr>"

type_synonym row_data = "(string, pyval) odict"
type_synonym table_dict = "(pyval, row_data) odict"

text \<open>The loop over \<^verbatim>\<open>entity.columns\<close>, filling \<^verbatim>\<open>row_data\<close>.\<close>

fun columns_loop :: "bool \<Rightarrow> row \<Rightarrow> string list \<Rightarrow> row_data \<Rightarrow> error + row_data" where
  "columns_loop forceUnicode row [] row_data = Inr row_data"
| "columns_loop forceUnicode row (column # cs) row_data =
     (case row column of
        None \<Rightarrow> Inl (KeyError column)
      | Some v \<Rightarrow>
          (if forceUnicode \<and> isinstance_str v then
             (case unicode v of
                Inl e \<Rightarrow> Inl e
              | Inr u \<Rightarrow> columns_loop forceUnicode row cs (od_set (=) column u row_data))
           else columns_loop forceUnicode row cs (od_set (=) column v row_data)))"

text \<open>The body of the loop over the rows of one table, after \<^verbatim>\<open>row_data\<close> is filled.\<close>

definition keyed_row :: "bool \<Rightarrow> bool \<Rightarrow> row_data \<Rightarrow> error + pyval \<times> row_data" where
  "keyed_row strKeys includeKey row_data =
     (case od_get ''id'' row_data of
        Inl e \<Rightarrow> Inl e
      | Inr i \<Rightarrow>
          (case (if strKeys then str i else Inr i) of
             Inl e \<Rightarrow> Inl e
           | Inr row_id \<Rightarrow>
               (if \<not> includeKey then
                  (case od_del ''id'' row_data of
                     Inl e \<Rightarrow> Inl e
                   | Inr row_data' \<Rightarrow> Inr (row_id, row_data'))
                else Inr (row_id, row_data))))"

fun rows_loop ::
  "bool \<Rightarrow> bool \<Rightarrow> bool \<Rightarrow> entity \<Rightarrow> row list \<Rightarrow> table_dict \<Rightarrow> error + table_dict" where
  "rows_loop strKeys forceUnicode includeKey entity [] acc = Inr acc"
| "rows_loop strKeys forceUnicode includeKey entity (row # rows) acc =
     (case columns_loop forceUnicode row (columns entity) [] of
        Inl e \<Rightarrow> Inl e
      | Inr row_data \<Rightarrow>
          (case keyed_row strKeys includeKey row_data of
             Inl e \<Rightarrow> Inl e
           | Inr (row_id, row_data') \<Rightarrow>
               rows_loop strKeys forceUnicode includeKey entity rows
                 (od_set py_eq row_id row_data' acc)))"

text \<open>The loop over \<^verbatim>\<open>self.entities\<close>: a table with no rows is skipped; a table name
  that \<^verbatim>\<open>_dict\<close> does not have raises KeyError.\<close>

fun entities_loop ::
  "territorial_data \<Rightarrow> bool \<Rightarrow> bool \<Rightarrow> bool \<Rightarrow> entity list \<Rightarrow> (string, table_dict) odict
     \<Rightarrow> error + (string, table_dict) odict" where
  "entities_loop self strKeys forceUnicode includeKey [] acc = Inr acc"
| "entities_loop self strKeys forceUnicode includeKey (entity # es) acc =
     (case td_dict self (table entity) of
        None \<Rightarrow> Inl (KeyError (table entity))
      | Some rows \<Rightarrow>
          (if rows = [] then entities_loop self strKeys forceUnicode includeKey es acc
           else
             (case rows_loop strKeys forceUnicode includeKey entity rows [] of
                Inl e \<Rightarrow> Inl e
              | Inr t \<Rightarrow>
                  entities_loop self strKeys forceUnicode includeKey es
                    (od_set (=) (table entity) t acc))))"

definition toDict ::
  "territorial_data \<Rightarrow> bool \<Rightarrow> bool \<Rightarrow> bool \<Rightarrow> error + (string, table_dict) odict" where
  "toDict self strKeys forceUnicode includeKey =
     entities_loop self strKeys forceUnicode includeKey entities []"

subsection \<open>Reading the result of toDict\<close>





text \<open>An entity kind with at least one row.\<close>

definition has_rows :: "territorial_data \<Rightarrow> entity \<Rightarrow> bool" where
  "has_rows self entity = (case td_dict self (table entity) of Some (r # rs) \<Rightarrow> True | _ \<Rightarrow> False)"

text \<open>
  A tree that \<^verbatim>\<open>toDict\<close> can convert: every table is there, every row has every column
  of its entity, and the conversions asked for are defined: with \<^verbatim>\<open>forceUnicode\<close> the
  byte strings are ASCII, with \<^verbatim>\<open>strKeys\<close> a unicode primary key is ASCII.
\<close>

definition col_ok :: "bool \<Rightarrow> row \<Rightarrow> string \<Rightarrow> bool" where
  "col_ok forceUnicode row c =
     (case row c of
        None \<Rightarrow> False
      | Some (StrV s) \<Rightarrow> forceUnicode \<longrightarrow> ascii_str s
      | Some _ \<Rightarrow> True)"

definition row_ok :: "bool \<Rightarrow> bool \<Rightarrow> entity \<Rightarrow> row \<Rightarrow> bool" where
  "row_ok strKeys forceUnicode entity row =
     (list_all (col_ok forceUnicode row) (columns entity) \<and>
      (case row ''id'' of Some (UnicodeV u) \<Rightarrow> strKeys \<longrightarrow> ascii_unicode u | _ \<Rightarrow> True))"

definition loaded :: "bool \<Rightarrow> bool \<Rightarrow> territorial_data \<Rightarrow> bool" where
  "loaded strKeys forceUnicode self =
     list_all (\<lambda>entity. case td_dict self (table entity) of
                           None \<Rightarrow> False
                         | Some rows \<Rightarrow> list_all (row_ok strKeys forceUnicode entity) rows) entities"

subsection \<open>TerritorialBase.export\<close>

text \<open>
  The registry \<^verbatim>\<open>exporters.FORMATS\<close> and the exporter classes are not part of these
  sources: the registry is a parameter, and an exporter is what \<^verbatim>\<open>export\<close> uses of it:
  its \<^verbatim>\<open>format\<close>, \<^verbatim>\<open>extension\<close> and \<^verbatim>\<open>binary_format\<close> attributes, and the \<^verbatim>\<open>data\<close>
  that an instance built from the territorial data and the minified flag computes.
\<close>

record exporter =
  format :: string
  extension :: string
  binary_format :: bool
  data :: "territorial_data \<Rightarrow> bool \<Rightarrow> error + pyval"

text \<open>
  What \<^verbatim>\<open>export\<close> touches outside the object: the files, the standard output and the
  logger. A file holds what was written to it. What the interpreter and the operating
  system decide is a parameter of the world: whether a path can be opened for writing,
  how a byte string decodes as UTF-8, and whether the text layer of a file or of the
  standard output can encode a unicode string.
\<close>

datatype level = Info | Debug

record world =
  files :: "string \<rightharpoonup> pyval list"
  stdout :: "pyval list"
  log :: "(level \<times> string) list"
  can_open :: "string \<Rightarrow> bool"
  decode_utf8 :: "string \<Rightarrow> nat list option"
  file_encodes :: "nat list \<Rightarrow> bool"
  stdout_encodes :: "nat list \<Rightarrow> bool"

record territorial_base =
  tb_info :: base_info
  tb_data :: territorial_data

definition logger :: "level \<Rightarrow> string \<Rightarrow> world \<Rightarrow> world" where
  "logger l msg w = w\<lparr>log := log w @ [(l, msg)]\<rparr>"

text \<open>\<^verbatim>\<open>unicode(data.decode('utf-8'))\<close> on data that is not unicode.\<close>

definition decode :: "world \<Rightarrow> pyval \<Rightarrow> error + pyval" where
  "decode w d =
     (case d of
        IntV i \<Rightarrow> Inl AttributeError
      | UnicodeV u \<Rightarrow> Inr (UnicodeV u)
      | StrV s \<Rightarrow>
          (case decode_utf8 w s of
             None \<Rightarrow> Inl UnicodeDecodeError
           | Some u \<Rightarrow> Inr (UnicodeV u)))"

text \<open>
  \<^verbatim>\<open>with open(filename, 'wb' if binary_data else 'w') as export_file:
  export_file.write(data)\<close>, with \<^verbatim>\<open>open\<close> from the io module: opening creates or
  empties the file; a binary file takes a byte string and a text file a unicode string
  that its encoding can represent, and a refused write leaves the file empty.
\<close>

definition write_file :: "string \<Rightarrow> bool \<Rightarrow> pyval \<Rightarrow> world \<Rightarrow> (error + unit) \<times> world" where
  "write_file filename binary d w =
     (if \<not> can_open w filename then (Inl IOError, w)
      else
        let opened = w\<lparr>files := (files w)(filename \<mapsto> [])\<rparr>;
            written = w\<lparr>files := (files w)(filename \<mapsto> [d])\<rparr>
        in (case d of
              IntV i \<Rightarrow> (Inl TypeError, opened)
            | StrV s \<Rightarrow> (if binary then (Inr (), written) else (Inl TypeError, opened))
            | UnicodeV u \<Rightarrow>
                (if binary then (Inl TypeError, opened)
                 else if file_encodes w u then (Inr (), written)
                 else (Inl UnicodeEncodeError, opened))))"

text \<open>\<^verbatim>\<open>sys.stdout.write(data)\<close>: a byte string goes out as it is, a unicode string
  through the encoding of the stream.\<close>

definition write_stdout :: "pyval \<Rightarrow> world \<Rightarrow> (error + unit) \<times> world" where
  "write_stdout d w =
     (case d of
        IntV i \<Rightarrow> (Inl TypeError, w)
      | StrV s \<Rightarrow> (Inr (), w\<lparr>stdout := stdout w @ [d]\<rparr>)
      | UnicodeV u \<Rightarrow>
          (if stdout_encodes w u then (Inr (), w\<lparr>stdout := stdout w @ [d]\<rparr>)
           else (Inl UnicodeEncodeError, w)))"

text \<open>
  \<^verbatim>\<open>export(self, format, minified=False, filename=None)\<close>. The object and the world go
  in and come out; \<^verbatim>\<open>if filename:\<close> is false for \<^verbatim>\<open>None\<close> and for the empty string.
\<close>

definition export ::
  "(string \<rightharpoonup> exporter) \<Rightarrow> string \<Rightarrow> bool \<Rightarrow> string option \<Rightarrow> territorial_base \<times> world
     \<Rightarrow> (error + unit) \<times> territorial_base \<times> world" where
  "export FORMATS fmt minified filename st =
     (case st of (self, w) \<Rightarrow>
       (case FORMATS fmt of
          None \<Rightarrow> (Inl (Exception ''Unsupported output format.''), self, w)
        | Some exporter \<Rightarrow>
            let w1 =
                  (if minified then
                     logger Info (''Exporting database to minified '' @ format exporter @ '' format...'') w
                   else logger Info (''Exporting database to '' @ format exporter @ '' format...'') w)
            in (case data exporter (tb_data self) minified of
                  Inl e \<Rightarrow> (Inl e, self, w1)
                | Inr d \<Rightarrow>
                    let binary_data = binary_format exporter
                    in (case (if \<not> binary_data \<and> \<not> isinstance_unicode d then decode w1 d
                              else Inr d) of
                          Inl e \<Rightarrow> (Inl e, self, w1)
                        | Inr d' \<Rightarrow>
                            let w2 = logger Debug ''Done.'' w1
                            in (case filename of
                                  None \<Rightarrow> (case write_stdout d' w2 of (r, w3) \<Rightarrow> (r, self, w3))
                                | Some f \<Rightarrow>
                                    if f = [] then
                                      (case write_stdout d' w2 of (r, w3) \<Rightarrow> (r, self, w3))
                                    else
                                      let f' = (if f = ''auto'' then ''dtb'' @ extension exporter
                                                else f)
                                      in (case write_file f' binary_data d' w2 of
                                            (r, w3) \<Rightarrow> (r, self, w3)))))))"

text \<open>
  Where the specification sends the output: to the file named, to \<^verbatim>\<open>dtb\<close> followed by
  the extension of the format for the name \<^verbatim>\<open>auto\<close>, and to the standard output
  (\<open>None\<close>) when no name is given.
\<close>

definition destination :: "exporter \<Rightarrow> string option \<Rightarrow> string option" where
  "destination exporter filename =
     (case filename of
        None \<Rightarrow> None
      | Some f \<Rightarrow>
          if f = [] then None
          else if f = ''auto'' then Some (''dtb'' @ extension exporter)
          else Some f)"

section \<open>lib/geodatabr/encoders/xml.py: the XML encoder\<close>

text \<open>
  Python 3: a \<^verbatim>\<open>str\<close> is a sequence of code points. The encoder builds an lxml tree:
  an element has a tag, attributes, an optional text and children; a comment has a text.
\<close>

type_synonym ustring = "nat list"

definition ustr :: "string \<Rightarrow> ustring" where
  "ustr s = map of_char s"

datatype xml = Element ustring "(ustring \<times> ustring) list" "ustring option" "xml list" | Comment ustring

text \<open>The value of a column in the serialized data: a string, or what else a row held.\<close>

datatype colval = VStr ustring | VInt int | VNone

text \<open>
  lxml is not part of these sources. What it checks and computes is a parameter: which
  strings it accepts as a name, attribute value or text (\<open>string_ok\<close>), which as the
  text of a comment (\<open>comment_ok\<close>), and how it serializes a tree (\<open>tostring\<close>, the
  call \<^verbatim>\<open>xml_str(database, xml_declaration=True, encoding='utf-8', pretty_print=True)\<close>
  followed by \<^verbatim>\<open>decode()\<close>).
\<close>

record lxml =
  string_ok :: "ustring \<Rightarrow> bool"
  comment_ok :: "ustring \<Rightarrow> bool"
  tostring :: "xml \<Rightarrow> ustring"

text \<open>\<^verbatim>\<open>SubElement(row, 'field', name=column_name).text = column_value\<close>: the element is
  made first, then its text is set; lxml takes a string or \<^verbatim>\<open>None\<close> as text.\<close>

definition field :: "lxml \<Rightarrow> ustring \<Rightarrow> colval \<Rightarrow> error + xml" where
  "field lx column_name column_value =
     (if \<not> string_ok lx column_name then Inl ValueError
      else
        (case column_value of
           VInt i \<Rightarrow> Inl TypeError
         | VNone \<Rightarrow> Inr (Element (ustr ''field'') [(ustr ''name'', column_name)] None [])
         | VStr t \<Rightarrow>
             (if string_ok lx t then
                Inr (Element (ustr ''field'') [(ustr ''name'', column_name)] (Some t) [])
              else Inl ValueError)))"

text \<open>The loop over \<^verbatim>\<open>row_data.items()\<close>: one field after the other, appended to the row.\<close>

fun fields_loop :: "lxml \<Rightarrow> (ustring \<times> colval) list \<Rightarrow> xml list \<Rightarrow> error + xml list" where
  "fields_loop lx [] children = Inr children"
| "fields_loop lx ((column_name, column_value) # items) children =
     (case field lx column_name column_value of
        Inl e \<Rightarrow> Inl e
      | Inr f \<Rightarrow> fields_loop lx items (children @ [f]))"

text \<open>The loop over \<^verbatim>\<open>rows.values()\<close>: one \<^verbatim>\<open>row\<close> element per record.\<close>

fun xml_rows_loop :: "lxml \<Rightarrow> ('k \<times> (ustring \<times> colval) list) list \<Rightarrow> xml list \<Rightarrow> error + xml list" where
  "xml_rows_loop lx [] children = Inr children"
| "xml_rows_loop lx ((row_id, row_data) # rows) children =
     (case fields_loop lx row_data [] of
        Inl e \<Rightarrow> Inl e
      | Inr fs \<Rightarrow> xml_rows_loop lx rows (children @ [Element (ustr ''row'') [] None fs]))"

text \<open>The loop over \<^verbatim>\<open>data.items()\<close>: a comment and a \<^verbatim>\<open>table\<close> element per table.\<close>

fun tables_loop ::
  "lxml \<Rightarrow> (ustring \<times> ('k \<times> (ustring \<times> colval) list) list) list \<Rightarrow> xml list \<Rightarrow> error + xml list" where
  "tables_loop lx [] children = Inr children"
| "tables_loop lx ((table_name, rows) # tables) children =
     (if \<not> comment_ok lx (ustr '' Table '' @ table_name @ ustr '' '') then Inl ValueError
      else if \<not> string_ok lx table_name then Inl ValueError
      else
        (case xml_rows_loop lx rows [] of
           Inl e \<Rightarrow> Inl e
         | Inr rs \<Rightarrow>
             tables_loop lx tables
               (children @
                [Comment (ustr '' Table '' @ table_name @ ustr '' ''),
                 Element (ustr ''table'') [(ustr ''name'', table_name)] None rs])))"

text \<open>
  The part of \<^verbatim>\<open>XmlEncoder.encode\<close> that builds the tree from the serialized data (table
  name, then row key, then column name, in order). The translation table is not part of
  these sources: the translated dataset name is an argument.
\<close>

definition encode_tree ::
  "lxml \<Rightarrow> ustring \<Rightarrow> (ustring \<times> ('k \<times> (ustring \<times> colval) list) list) list \<Rightarrow> error + xml" where
  "encode_tree lx dataset_name d =
     (if \<not> string_ok lx dataset_name then Inl ValueError
      else
        (case tables_loop lx d [] of
           Inl e \<Rightarrow> Inl e
         | Inr children \<Rightarrow>
             Inr (Element (ustr ''database'') [(ustr ''name'', dataset_name)] None children)))"



text \<open>
  The layout the specification gives, in its words: a root element carrying the
  translated dataset name; per table one comment and one \<^verbatim>\<open>table\<close> element named by the
  table name; per record one \<^verbatim>\<open>row\<close> element; per column one \<^verbatim>\<open>field\<close> element with the
  column name as attribute and the string value as text.
\<close>

definition field_element :: "ustring \<times> ustring \<Rightarrow> xml" where
  "field_element cv = Element (ustr ''field'') [(ustr ''name'', fst cv)] (Some (snd cv)) []"

definition row_element :: "(ustring \<times> ustring) list \<Rightarrow> xml" where
  "row_element r = Element (ustr ''row'') [] None (map field_element r)"

definition table_elements :: "ustring \<times> (ustring \<times> ustring) list list \<Rightarrow> xml list" where
  "table_elements t =
     [Comment (ustr '' Table '' @ fst t @ ustr '' ''),
      Element (ustr ''table'') [(ustr ''name'', fst t)] None (map row_element (snd t))]"

definition document :: "ustring \<Rightarrow> (ustring \<times> (ustring \<times> ustring) list list) list \<Rightarrow> xml" where
  "document dataset_name tables =
     Element (ustr ''database'') [(ustr ''name'', dataset_name)] None
       (concat (map table_elements tables))"

text \<open>Serialized data whose values are all strings holds these tables of records.\<close>

definition the_text :: "colval \<Rightarrow> ustring" where
  "the_text v = (case v of VStr t \<Rightarrow> t | _ \<Rightarrow> [])"

definition records :: "(ustring \<times> ('k \<times> (ustring \<times> colval) list) list) list \<Rightarrow> (ustring \<times> (ustring \<times> ustring) list list) list" where
  "records d = map (\<lambda>t. (fst t, map (\<lambda>r. map (\<lambda>cv. (fst cv, the_text (snd cv))) (snd r)) (snd t))) d"

text \<open>lxml accepts the dataset name and every name and value of the data, and every
  value is a string.\<close>

definition cv_ok :: "lxml \<Rightarrow> ustring \<times> colval \<Rightarrow> bool" where
  "cv_ok lx cv =
     (string_ok lx (fst cv) \<and> (case snd cv of VStr s \<Rightarrow> string_ok lx s | _ \<Rightarrow> False))"

definition table_ok :: "lxml \<Rightarrow> ustring \<times> ('k \<times> (ustring \<times> colval) list) list \<Rightarrow> bool" where
  "table_ok lx t =
     (comment_ok lx (ustr '' Table '' @ fst t @ ustr '' '') \<and> string_ok lx (fst t) \<and>
      list_all (\<lambda>r. list_all (cv_ok lx) (snd r)) (snd t))"

definition accepted :: "lxml \<Rightarrow> ustring \<Rightarrow> (ustring \<times> ('k \<times> (ustring \<times> colval) list) list) list \<Rightarrow> bool" where
  "accepted lx dataset_name d \<longleftrightarrow> string_ok lx dataset_name \<and> list_all (table_ok lx) d"

text \<open>The names of the \<^verbatim>\<open>table\<close> elements directly under an element, in order.\<close>

fun table_name_of :: "xml \<Rightarrow> ustring list" where
  "table_name_of (Element tag attrs t children) =
     (if tag = ustr ''table'' then (case map_of attrs (ustr ''name'') of None \<Rightarrow> [] | Some n \<Rightarrow> [n]) else [])"
| "table_name_of (Comment c) = []"

fun table_names :: "xml \<Rightarrow> ustring list" where
  "table_names (Element tag attrs t children) = concat (map table_name_of children)"
| "table_names (Comment c) = []"

section \<open>Example inputs\<close>

text \<open>
  A parsed tree with two states, one mesoregion and four empty tables; the same tree
  with the table of districts missing.
\<close>

definition example_tree :: territorial_data where
  "example_tree =
     (TerritorialData \<lparr>year = 2014\<rparr>)\<lparr>td_dict :=
        [''uf'' \<mapsto> [[''id'' \<mapsto> IntV 11, ''nome'' \<mapsto> StrV ''Rondonia''],
                     [''id'' \<mapsto> IntV 12, ''nome'' \<mapsto> StrV ''Acre'']],
         ''mesorregiao'' \<mapsto> [[''id'' \<mapsto> IntV 1101, ''id_uf'' \<mapsto> IntV 11,
                               ''nome'' \<mapsto> StrV ''Madeira-Guapore'']],
         ''microrregiao'' \<mapsto> [], ''municipio'' \<mapsto> [], ''distrito'' \<mapsto> [],
         ''subdistrito'' \<mapsto> []]\<rparr>"

definition partial_tree :: territorial_data where
  "partial_tree =
     (TerritorialData \<lparr>year = 2014\<rparr>)\<lparr>td_dict :=
        [''uf'' \<mapsto> [], ''mesorregiao'' \<mapsto> [], ''microrregiao'' \<mapsto> [], ''municipio'' \<mapsto> [],
         ''subdistrito'' \<mapsto> []]\<rparr>"

text \<open>A registry with one text format, and a world where nothing has been written.\<close>

definition xml_exporter :: exporter where
  "xml_exporter =
     \<lparr>format = ''xml'', extension = ''.xml'', binary_format = False,
      data = (\<lambda>d minified. Inr (StrV ''<database/>''))\<rparr>"

definition registry :: "string \<rightharpoonup> exporter" where
  "registry = [''xml'' \<mapsto> xml_exporter]"

definition example_base :: territorial_base where
  "example_base = \<lparr>tb_info = \<lparr>year = 2014\<rparr>, tb_data = example_tree\<rparr>"

definition empty_world :: world where
  "empty_world =
     \<lparr>files = Map.empty, stdout = [], log = [], can_open = (\<lambda>f. True),
      decode_utf8 = (\<lambda>s. if ascii_str s then Some (map of_char s) else None),
      file_encodes = (\<lambda>u. True), stdout_encodes = (\<lambda>u. True)\<rparr>"

text \<open>
  An lxml that accepts every string; a tree with one state and no row in any other
  table; a serializer that hands every value over as its string; and the serialized data
  of that tree.
\<close>

definition permissive :: lxml where
  "permissive = \<lparr>string_ok = (\<lambda>s. True), comment_ok = (\<lambda>s. True), tostring = (\<lambda>t. [])\<rparr>"



definition one_state :: "(ustring \<times> (pyval \<times> (ustring \<times> colval) list) list) list" where
  "one_state =
     [(ustr ''uf'',
       [(IntV 11, [(ustr ''id'', VStr (ustr ''11'')), (ustr ''nome'', VStr (ustr ''Acre''))])])]"

text \<open>A little-endian platform; the float conversions are not used in the examples that
  name it.\<close>

definition little :: platform where
  "little = \<lparr>little_endian = True, to_binary32 = (\<lambda>x. None), of_binary32 = (\<lambda>w. 0)\<rparr>"

section \<open>Properties of the Bytes buffer\<close>

subsection \<open>Buffer and byte order\<close>

lemma bio_write_append:
  "pos s = length (buf s) \<Longrightarrow> bio_write bs s = \<lparr>buf = buf s @ bs, pos = pos s + length bs\<rparr>"
  by (cases "bs = []") (simp_all add: bio_write_def Let_def)

lemma bio_write_read_back:
  "bs \<noteq> [] \<Longrightarrow>
   bio_read (int (length bs)) (seek (pos s) (bio_write bs s)) = (bs, bio_write bs s)"
  by (simp add: bio_write_def bio_read_def seek_def Let_def)

lemma bio_write_write: "bio_write bs (bio_write hs s) = bio_write (hs @ bs) s"
proof (cases "hs = []")
  case True
  then show ?thesis by (simp add: bio_write_def)
next
  case hs: False
  show ?thesis
  proof (cases "bs = []")
    case True
    then show ?thesis by (simp add: bio_write_def)
  next
    case False
    have "0 < length hs" using hs by simp
    then show ?thesis using hs False
      apply (simp add: bio_write_def Let_def min_def drop_take add.commute add.left_commute)
      apply arith
      done
  qed
qed

lemma bio_read_prefix:
  "bio_read (int (length hs)) (seek (pos s) (bio_write (hs @ bs) s)) =
     (hs, seek (pos s + length hs) (bio_write (hs @ bs) s))"
  by (cases "hs @ bs = []") (simp_all add: bio_write_def bio_read_def seek_def Let_def)

lemma bio_read_suffix:
  "bio_read (int (length bs)) (seek (pos s + length hs) (bio_write (hs @ bs) s)) =
     (bs, bio_write (hs @ bs) s)"
  by (cases "hs @ bs = []") (simp_all add: bio_write_def bio_read_def seek_def Let_def)

lemma uint_byte: "0 \<le> x \<Longrightarrow> x < 256 \<Longrightarrow> uint (of_int x :: byte) = x"
  by (simp add: uint_word_of_int)

lemma length_be32: "length (be32 v) = 4"
  by (simp add: be32_def Let_def)

lemma be32_digits:
  fixes u :: int
  shows "((u div 2 ^ 24 * 256 + u div 2 ^ 16 mod 256) * 256 + u div 2 ^ 8 mod 256) * 256
           + u mod 256 = u"
proof -
  have a: "u div 2 ^ 16 = u div 2 ^ 24 * 256 + u div 2 ^ 16 mod 256"
  proof -
    have "u div 2 ^ 24 = u div 2 ^ 16 div 256" by (simp add: div_mult2_eq[symmetric])
    then show ?thesis by simp
  qed
  have b: "u div 2 ^ 8 = u div 2 ^ 16 * 256 + u div 2 ^ 8 mod 256"
  proof -
    have "u div 2 ^ 16 = u div 2 ^ 8 div 256" by (simp add: div_mult2_eq[symmetric])
    then show ?thesis by simp
  qed
  have c: "u = u div 2 ^ 8 * 256 + u mod 256" by simp
  show ?thesis by (simp only: a[symmetric] b[symmetric] c[symmetric])
qed

text \<open>The four bytes of \<open>be32 v\<close>, read as a base-256 number with the most significant
  digit first, are \<open>v\<close> modulo \<open>2 ^ 32\<close>: the two's-complement encoding.\<close>

lemma be_value_be32: "be_value (be32 v) = v mod 2 ^ 32"
proof -
  define u where "u = v mod 2 ^ 32"
  have u: "0 \<le> u" "u < 2 ^ 32" by (simp_all add: u_def)
  have h: "0 \<le> u div 2 ^ 24" "u div 2 ^ 24 < 256" using u by auto
  have b0: "uint (of_int (u div 2 ^ 24) :: byte) = u div 2 ^ 24"
    using h by (rule uint_byte)
  have b1: "uint (of_int (u div 2 ^ 16 mod 256) :: byte) = u div 2 ^ 16 mod 256"
    by (rule uint_byte) simp_all
  have b2: "uint (of_int (u div 2 ^ 8 mod 256) :: byte) = u div 2 ^ 8 mod 256"
    by (rule uint_byte) simp_all
  have b3: "uint (of_int (u mod 256) :: byte) = u mod 256"
    by (rule uint_byte) simp_all
  have e: "be32 v = [of_int (u div 2 ^ 24), of_int (u div 2 ^ 16 mod 256),
            of_int (u div 2 ^ 8 mod 256), of_int (u mod 256)]"
    unfolding be32_def u_def Let_def ..
  have "be_value (be32 v) =
      ((uint (of_int (u div 2 ^ 24) :: byte) * 256
          + uint (of_int (u div 2 ^ 16 mod 256) :: byte)) * 256
        + uint (of_int (u div 2 ^ 8 mod 256) :: byte)) * 256
      + uint (of_int (u mod 256) :: byte)"
    unfolding e be_value_def by (simp only: foldl.simps mult_zero_left add_0_left)
  also have "\<dots> = u" unfolding b0 b1 b2 b3 by (rule be32_digits)
  finally show ?thesis unfolding u_def .
qed

lemma from_be32_be32: "in_int32 v \<Longrightarrow> from_be32 (be32 v) = v"
proof -
  assume r: "in_int32 v"
  have m: "(if v mod 2 ^ 32 < 2 ^ 31 then v mod 2 ^ 32 else v mod 2 ^ 32 - 2 ^ 32) = v"
  proof (cases "0 \<le> v")
    case True
    then have "v mod 2 ^ 32 = v"
      using r unfolding in_int32_def by (intro mod_pos_pos_trivial) simp_all
    then show ?thesis using r by (simp add: in_int32_def)
  next
    case False
    have "(v + 2 ^ 32) mod 2 ^ 32 = v + 2 ^ 32"
      using r False by (intro mod_pos_pos_trivial) (simp_all add: in_int32_def)
    moreover have "(v + 2 ^ 32) mod 2 ^ 32 = v mod 2 ^ 32" by simp
    ultimately have "v mod 2 ^ 32 = v + 2 ^ 32" by simp
    then show ?thesis using r False by (simp add: in_int32_def)
  qed
  have "from_be32 (be32 v) =
      (if be_value (be32 v) < 2 ^ 31 then be_value (be32 v) else be_value (be32 v) - 2 ^ 32)"
    by (simp only: from_be32_def be_value_def Let_def)
  then show ?thesis unfolding be_value_be32 m .
qed

subsection \<open>writeByte and readByte\<close>

lemma writeByte_ascii:
  assumes "0 \<le> v" "v \<le> 127"
  shows "writeByte v s = (Inr (), bio_write [of_int v] s)"
  using assms by (simp add: writeByte_def chr_def encode_utf8_def pack_def pack_c_def)

lemma writeByte_high:
  assumes "128 \<le> v" "v \<le> 255"
  shows "writeByte v s = (Inl StructError, s)"
proof -
  have "\<not> nat v < 128" "nat v < 2048" using assms by simp_all
  then show ?thesis
    using assms by (simp add: writeByte_def chr_def encode_utf8_def pack_def pack_c_def)
qed

lemma encode_utf8_high:
  assumes "128 \<le> v" "v \<le> 255"
  shows "chr v = Inr (nat v) \<and> (\<exists>b. encode_utf8 (nat v) = Inr b \<and> length b = 2)"
proof -
  have "\<not> nat v < 128" "nat v < 2048" using assms by simp_all
  then show ?thesis using assms by (simp add: chr_def encode_utf8_def)
qed

lemma writeByte_fails:
  assumes "v < 0 \<or> 127 < v"
  shows "\<exists>e. writeByte v s = (Inl e, s)"
  using assms by (auto simp add: writeByte_def chr_def encode_utf8_def pack_def pack_c_def)

lemma readByte_after_write:
  assumes "0 \<le> v" "v \<le> 127"
  shows "readByte (seek (pos s) (bio_write [of_int v] s)) = (Inr v, bio_write [of_int v] s)"
proof -
  have "bio_read 1 (seek (pos s) (bio_write [of_int v] s)) = ([of_int v], bio_write [of_int v] s)"
    using bio_write_read_back[of "[of_int v]" s] by simp
  moreover have "uint (of_int v :: byte) = v" using assms by (intro uint_byte) simp_all
  ultimately show ?thesis
    by (simp add: readByte_def bind_io_def unpack_def unpack_c_def ord_def)
qed

text \<open>
  Claim C9. \<^verbatim>\<open>writeByte\<close> succeeds exactly for the values 0 to 127. For such a value it
  stores the one byte at the cursor (appending it when the cursor is at the end), and
  \<^verbatim>\<open>readByte\<close> from that position returns the value. For a value from 128 to 255 it
  raises struct.error and leaves the buffer as it was: the UTF-8 encoding of the
  character has two bytes, and the format \<^verbatim>\<open>'c'\<close> takes one. Every other integer
  raises as well.
\<close>

theorem writeByte_succeeds_exactly_on_ascii:
  "(0 \<le> v \<and> v \<le> 127 \<longrightarrow>
      writeByte v s = (Inr (), bio_write [of_int v] s) \<and>
      (pos s = length (buf s) \<longrightarrow> buf (snd (writeByte v s)) = buf s @ [of_int v]) \<and>
      readByte (seek (pos s) (snd (writeByte v s))) = (Inr v, snd (writeByte v s)))
   \<and> (128 \<le> v \<and> v \<le> 255 \<longrightarrow>
        writeByte v s = (Inl StructError, s) \<and>
        chr v = Inr (nat v) \<and> (\<exists>b. encode_utf8 (nat v) = Inr b \<and> length b = 2))
   \<and> ((\<exists>u. fst (writeByte v s) = Inr u) \<longleftrightarrow> 0 \<le> v \<and> v \<le> 127)"
proof (intro conjI impI)
  assume a: "0 \<le> v \<and> v \<le> 127"
  then show w: "writeByte v s = (Inr (), bio_write [of_int v] s)" by (simp add: writeByte_ascii)
  show "readByte (seek (pos s) (snd (writeByte v s))) = (Inr v, snd (writeByte v s))"
    using a by (simp add: w readByte_after_write)
  assume "pos s = length (buf s)"
  then show "buf (snd (writeByte v s)) = buf s @ [of_int v]"
    by (simp add: w bio_write_append)
next
  assume h: "128 \<le> v \<and> v \<le> 255"
  then show "writeByte v s = (Inl StructError, s)" by (simp add: writeByte_high)
  from h show "chr v = Inr (nat v)" using encode_utf8_high[of v] by simp
  from h show "\<exists>b. encode_utf8 (nat v) = Inr b \<and> length b = 2"
    using encode_utf8_high[of v] by simp
next
  show "(\<exists>u. fst (writeByte v s) = Inr u) \<longleftrightarrow> 0 \<le> v \<and> v \<le> 127"
  proof (cases "0 \<le> v \<and> v \<le> 127")
    case True
    then show ?thesis by (simp add: writeByte_ascii)
  next
    case False
    then have "v < 0 \<or> 127 < v" by auto
    from writeByte_fails[OF this, of s] False show ?thesis by auto
  qed
qed

theorem writeByte_succeeds_exactly_on_ascii_witness:
  "writeByte 65 BytesIO = (Inr (), \<lparr>buf = [65], pos = 1\<rparr>) \<and>
   readByte (seek 0 (snd (writeByte 65 BytesIO))) = (Inr 65, \<lparr>buf = [65], pos = 1\<rparr>) \<and>
   writeByte 200 BytesIO = (Inl StructError, BytesIO)"
proof -
  note t = writeByte_succeeds_exactly_on_ascii[of 65 BytesIO]
  have a: "(0::int) \<le> 65 \<and> (65::int) \<le> 127" by simp
  have w: "writeByte 65 BytesIO = (Inr (), bio_write [of_int 65] BytesIO)"
    using t a by blast
  have b: "bio_write [of_int 65] BytesIO = \<lparr>buf = [65], pos = 1\<rparr>"
    by (simp add: BytesIO_def bio_write_def)
  have r: "readByte (seek (pos BytesIO) (snd (writeByte 65 BytesIO))) =
             (Inr 65, snd (writeByte 65 BytesIO))"
    using t a by blast
  have p: "pos BytesIO = 0" by (simp add: BytesIO_def)
  have c: "(128::int) \<le> 200 \<and> (200::int) \<le> 255" by simp
  have h: "writeByte 200 BytesIO = (Inl StructError, BytesIO)"
    using writeByte_succeeds_exactly_on_ascii[of 200 BytesIO] c by blast
  show ?thesis using r unfolding w b p by (simp add: h w b)
qed

subsection \<open>writeInt and readInt\<close>

text \<open>
  For every integer of the 4-byte signed range \<^verbatim>\<open>writeInt\<close> stores exactly four bytes,
  the big-endian two's-complement encoding of the value, and \<^verbatim>\<open>readInt\<close> from that
  position returns the value; an integer outside the range raises struct.error and
  writes nothing.
\<close>

theorem writeInt_big_endian:
  "(in_int32 v \<longrightarrow>
      writeInt v s = (Inr (), bio_write (be32 v) s) \<and> length (be32 v) = 4 \<and>
      be_value (be32 v) = v mod 2 ^ 32 \<and>
      readInt (seek (pos s) (bio_write (be32 v) s)) = (Inr v, bio_write (be32 v) s))
   \<and> (\<not> in_int32 v \<longrightarrow> writeInt v s = (Inl StructError, s))"
proof (intro conjI impI)
  assume r: "in_int32 v"
  then show "writeInt v s = (Inr (), bio_write (be32 v) s)"
    by (simp add: writeInt_def pack_net_i_def pack_def)
  show "length (be32 v) = 4" by (rule length_be32)
  show "be_value (be32 v) = v mod 2 ^ 32" by (rule be_value_be32)
  have n: "be32 v \<noteq> []" using length_be32[of v] by auto
  have "bio_read 4 (seek (pos s) (bio_write (be32 v) s)) = (be32 v, bio_write (be32 v) s)"
    using bio_write_read_back[OF n, of s] by (simp add: length_be32)
  then show "readInt (seek (pos s) (bio_write (be32 v) s)) = (Inr v, bio_write (be32 v) s)"
    using r by (simp add: readInt_def unpack_def unpack_net_i_def length_be32 from_be32_be32)
next
  assume "\<not> in_int32 v"
  then show "writeInt v s = (Inl StructError, s)"
    by (simp add: writeInt_def pack_net_i_def pack_def)
qed

theorem writeInt_big_endian_witness:
  "writeInt (- 42) BytesIO = (Inr (), \<lparr>buf = [255, 255, 255, 214], pos = 4\<rparr>) \<and>
   writeInt (2 ^ 31) BytesIO = (Inl StructError, BytesIO)"
proof -
  have a: "in_int32 (- 42)" by (simp add: in_int32_def)
  have b: "\<not> in_int32 (2 ^ 31)" by (simp add: in_int32_def)
  have "writeInt (- 42) BytesIO = (Inr (), bio_write (be32 (- 42)) BytesIO)"
    using writeInt_big_endian[of "- 42" BytesIO] a by blast
  moreover have "bio_write (be32 (- 42)) BytesIO = \<lparr>buf = [255, 255, 255, 214], pos = 4\<rparr>"
    by (simp add: be32_def Let_def bio_write_def BytesIO_def)
  moreover have "writeInt (2 ^ 31) BytesIO = (Inl StructError, BytesIO)"
    using writeInt_big_endian[of "2 ^ 31" BytesIO] b by blast
  ultimately show ?thesis by simp
qed

subsection \<open>writeString and readString\<close>

text \<open>The length header: four bytes in the byte order of the platform.\<close>

lemma unpack_i_pack_i:
  "in_int32 n \<Longrightarrow>
   unpack_i pf (if little_endian pf then rev (be32 n) else be32 n) = Inr n"
  by (simp add: unpack_i_def length_be32 from_be32_be32)

text \<open>
  Given a bytes object shorter than \<open>2 ^ 31\<close>, \<^verbatim>\<open>writeString\<close> stores the 4-byte length
  header in the platform's byte order and then the bytes, and \<^verbatim>\<open>readString\<close> from that
  position returns the bytes object.
\<close>

theorem writeString_bytes:
  assumes "length bs < 2 ^ 31"
  shows "writeString pf (Bytes bs) s =
           (Inr (), bio_write ((if little_endian pf then rev (be32 (int (length bs)))
                                else be32 (int (length bs))) @ bs) s) \<and>
         readString pf (seek (pos s) (snd (writeString pf (Bytes bs) s))) =
           (Inr (Bytes bs), snd (writeString pf (Bytes bs) s))"
proof -
  define hdr where
    "hdr = (if little_endian pf then rev (be32 (int (length bs))) else be32 (int (length bs)))"
  have r: "in_int32 (int (length bs))" using assms by (simp add: in_int32_def)
  have l: "length hdr = 4" by (simp add: hdr_def length_be32)
  have w: "writeString pf (Bytes bs) s = (Inr (), bio_write (hdr @ bs) s)"
    using r
    by (simp add: writeString_def Let_def len_def bind_io_def pack_def pack_i_def pack_s_def
        bio_write_write hdr_def)
  have p: "bio_read 4 (seek (pos s) (bio_write (hdr @ bs) s)) =
             (hdr, seek (pos s + 4) (bio_write (hdr @ bs) s))"
    using bio_read_prefix[of hdr s bs] by (simp add: l)
  have q: "bio_read (int (length bs)) (seek (pos s + 4) (bio_write (hdr @ bs) s)) =
             (bs, bio_write (hdr @ bs) s)"
    using bio_read_suffix[of bs s hdr] by (simp add: l)
  have u: "unpack_i pf hdr = Inr (int (length bs))"
    unfolding hdr_def using r by (rule unpack_i_pack_i)
  have "readString pf (seek (pos s) (bio_write (hdr @ bs) s)) =
          (Inr (Bytes bs), bio_write (hdr @ bs) s)"
    by (simp add: readString_def bind_io_def unpack_def p q u unpack_s_def)
  then show ?thesis using w unfolding hdr_def by simp
qed

theorem writeString_bytes_witness:
  "writeString little (Bytes [115, 112]) BytesIO =
     (Inr (), \<lparr>buf = [2, 0, 0, 0, 115, 112], pos = 6\<rparr>) \<and>
   readString little (seek 0 \<lparr>buf = [2, 0, 0, 0, 115, 112], pos = 6\<rparr>) =
     (Inr (Bytes [115, 112]), \<lparr>buf = [2, 0, 0, 0, 115, 112], pos = 6\<rparr>)"
proof -
  have a: "length [115, 112 :: byte] < 2 ^ 31" by simp
  have b: "bio_write ((if little_endian little then rev (be32 (int (length [115, 112 :: byte])))
                       else be32 (int (length [115, 112 :: byte]))) @ [115, 112]) BytesIO =
           \<lparr>buf = [2, 0, 0, 0, 115, 112], pos = 6\<rparr>"
    by (simp add: little_def be32_def Let_def bio_write_def BytesIO_def)
  have p: "pos BytesIO = 0" by (simp add: BytesIO_def)
  have t: "writeString little (Bytes [115, 112]) BytesIO =
             (Inr (), \<lparr>buf = [2, 0, 0, 0, 115, 112], pos = 6\<rparr>) \<and>
           readString little (seek 0 (snd (writeString little (Bytes [115, 112]) BytesIO))) =
             (Inr (Bytes [115, 112]), snd (writeString little (Bytes [115, 112]) BytesIO))"
    using writeString_bytes[OF a, of little BytesIO] unfolding b p .
  from t have w: "writeString little (Bytes [115, 112]) BytesIO =
             (Inr (), \<lparr>buf = [2, 0, 0, 0, 115, 112], pos = 6\<rparr>)"
    by (rule conjunct1)
  from t have r: "readString little (seek 0 (snd (writeString little (Bytes [115, 112]) BytesIO))) =
             (Inr (Bytes [115, 112]), snd (writeString little (Bytes [115, 112]) BytesIO))"
    by (rule conjunct2)
  show ?thesis using w r[unfolded w snd_conv] by (rule conjI)
qed

text \<open>
  Claim C7. The claim says that for every string \<^verbatim>\<open>writeString\<close> appends a 4-byte length
  header followed by the raw bytes of the string. The method is annotated
  \<^verbatim>\<open>value: str\<close>, and for every \<^verbatim>\<open>str\<close> it raises struct.error: the format
  \<^verbatim>\<open>'<n>s'\<close> takes a bytes object and the method does not encode its argument.
\<close>

theorem writeString_text_raises:
  "fst (writeString pf (Str cs) s) = Inl StructError"
  by (simp add: writeString_def Let_def bind_io_def pack_def pack_i_def pack_s_def len_def
      split: sum.splits prod.splits)

subsection \<open>The four values of the specification\<close>

lemma pack_at_end:
  "pack (Inr bs) \<lparr>buf = b, pos = length b\<rparr> = (Inr (), \<lparr>buf = b @ bs, pos = length (b @ bs)\<rparr>)"
  by (simp add: pack_def bio_write_append)

lemma writeBoolean_True_fresh:
  "writeBoolean True BytesIO = (Inr (), \<lparr>buf = [1], pos = length [1::byte]\<rparr>)"
  by (simp add: writeBoolean_def writeByte_def chr_def encode_utf8_def pack_c_def BytesIO_def
      pack_at_end[of _ "[]", simplified])

lemma be32_minus_42: "be32 (- 42) = [255, 255, 255, 214]"
  by (simp add: be32_def Let_def)

lemma be32_2: "be32 2 = [0, 0, 0, 2]"
  by (simp add: be32_def Let_def)

lemma writeInt_minus_42:
  "writeInt (- 42) \<lparr>buf = b, pos = length b\<rparr> =
     (Inr (), \<lparr>buf = b @ [255, 255, 255, 214], pos = length (b @ [255, 255, 255, 214 :: byte])\<rparr>)"
  unfolding writeInt_def pack_net_i_def in_int32_def
  by (simp add: be32_minus_42 pack_at_end del: length_append)

lemma writeFloat_at_end:
  "writeFloat pf x \<lparr>buf = b, pos = length b\<rparr> =
     (case to_binary32 pf x of
        None \<Rightarrow> (Inl OverflowError, \<lparr>buf = b, pos = length b\<rparr>)
      | Some w \<Rightarrow> (Inr (), \<lparr>buf = b @ be32 (uint w), pos = length (b @ be32 (uint w))\<rparr>))"
proof (cases "to_binary32 pf x")
  case None
  then show ?thesis by (simp add: writeFloat_def pack_net_f_def pack_def)
next
  case (Some w)
  then show ?thesis by (simp add: writeFloat_def pack_net_f_def pack_at_end del: length_append)
qed

lemma writeString_str_at_end:
  "length cs < 2 ^ 31 \<Longrightarrow>
   writeString pf (Str cs) \<lparr>buf = b, pos = length b\<rparr> =
     (Inl StructError,
      \<lparr>buf = b @ (if little_endian pf then rev (be32 (int (length cs)))
                    else be32 (int (length cs))),
       pos = length b + 4\<rparr>)"
  unfolding writeString_def Let_def bind_io_def len_def pack_i_def in_int32_def pack_s_def
  by (simp add: pack_at_end length_be32) (simp add: pack_def)

text \<open>
  Claim C2. The claim says that writing \<open>true\<close>, \<open>-42\<close>, \<open>3.5\<close> and the text "sp" to an
  empty buffer and reading back in the same order yields these four values. On the code
  the sequence raises before anything is read: the first three writes store nine bytes
  (when 3.5 converts to binary32), then \<^verbatim>\<open>writeString\<close> stores the length header and
  raises struct.error on the text. The result is an exception on every platform.
\<close>

theorem write_then_read_text_raises:
  "write_then_read pf True (- 42) float_3_5 (Str text_sp) BytesIO =
     (case to_binary32 pf float_3_5 of
        None \<Rightarrow> (Inl OverflowError, \<lparr>buf = [1, 255, 255, 255, 214], pos = 5\<rparr>)
      | Some w \<Rightarrow>
          (Inl StructError,
           \<lparr>buf = [1, 255, 255, 255, 214] @ be32 (uint w) @
                   (if little_endian pf then [2, 0, 0, 0] else [0, 0, 0, 2]),
            pos = 13\<rparr>))"
proof (cases "to_binary32 pf float_3_5")
  case None
  then show ?thesis
    unfolding write_then_read_def write_all_def bind_io_def
    by (simp add: writeBoolean_True_fresh writeInt_minus_42[of "[1]", simplified]
        writeFloat_at_end[of _ _ "[1, 255, 255, 255, 214]", simplified])
next
  case (Some w)
  have s: "writeString pf (Str text_sp)
             \<lparr>buf = [1, 255, 255, 255, 214] @ be32 (uint w),
              pos = length ([1, 255, 255, 255, 214 :: byte] @ be32 (uint w))\<rparr> =
           (Inl StructError,
            \<lparr>buf = ([1, 255, 255, 255, 214] @ be32 (uint w)) @
                    (if little_endian pf then [2, 0, 0, 0] else [0, 0, 0, 2]),
             pos = 13\<rparr>)"
    using writeString_str_at_end[of text_sp pf "[1, 255, 255, 255, 214] @ be32 (uint w)"]
    by (simp add: text_sp_def be32_2 length_be32)
  show ?thesis
    unfolding write_then_read_def write_all_def bind_io_def
    using s
    by (simp add: Some writeBoolean_True_fresh writeInt_minus_42[of "[1]", simplified]
        writeFloat_at_end[of _ _ "[1, 255, 255, 255, 214]", simplified] length_be32)
qed

section \<open>Properties of toDict\<close>

subsection \<open>OrderedDict\<close>

lemma od_set_map_fst:
  "map fst (od_set eq k v kvs) =
     (if list_ex (\<lambda>k'. eq k' k) (map fst kvs) then map fst kvs else map fst kvs @ [k])"
  by (induction kvs) (auto split: if_splits)



lemma map_of_od_set: "map_of (od_set (=) k v kvs) = (map_of kvs)(k \<mapsto> v)"
  by (induction kvs) auto



subsection \<open>The primary-key field\<close>















subsection \<open>Tables without rows\<close>

lemma table_inj: "table a = table b \<Longrightarrow> a = b"
  by (cases a; cases b) simp_all

lemma distinct_tables: "distinct (map table entities)"
  by (simp add: entities_def)

lemma has_rows_iff:
  "td_dict self (table e) = Some rows \<Longrightarrow> has_rows self e \<longleftrightarrow> rows \<noteq> []"
  by (simp add: has_rows_def split: list.splits)

lemma entities_loop_keys:
  "entities_loop self sk fu ik es acc = Inr d \<Longrightarrow> distinct (map table es) \<Longrightarrow>
   set (map table es) \<inter> set (map fst acc) = {} \<Longrightarrow>
   map fst d = map fst acc @ map table (filter (has_rows self) es)"
proof (induction es arbitrary: acc)
  case Nil
  then show ?case by simp
next
  case (Cons e es)
  from Cons.prems(1) obtain rows where s: "td_dict self (table e) = Some rows"
    by (auto split: option.splits)
  show ?case
  proof (cases "rows = []")
    case True
    then have "entities_loop self sk fu ik es acc = Inr d" using Cons.prems(1) s by simp
    from Cons.IH[OF this] Cons.prems(2,3) True s show ?thesis
      by (simp add: has_rows_iff[OF s])
  next
    case False
    from Cons.prems(1) s False obtain t where
      l: "entities_loop self sk fu ik es (od_set (=) (table e) t acc) = Inr d"
      by (auto split: sum.splits)
    have n: "\<not> list_ex (\<lambda>k'. k' = table e) (map fst acc)"
      using Cons.prems(3) by (auto simp: list_ex_iff)
    have k: "map fst (od_set (=) (table e) t acc) = map fst acc @ [table e]"
      using n by (simp add: od_set_map_fst)
    have "set (map table es) \<inter> set (map fst (od_set (=) (table e) t acc)) = {}"
      unfolding k using Cons.prems(2,3) by auto
    from Cons.IH[OF l _ this] Cons.prems(2) show ?thesis
      by (simp add: k has_rows_iff[OF s] False)
  qed
qed

lemma toDict_keys:
  "toDict self sk fu ik = Inr d \<Longrightarrow> map fst d = map table (filter (has_rows self) entities)"
  using entities_loop_keys[of self sk fu ik entities "[]" d] distinct_tables
  by (simp add: toDict_def)

lemma columns_loop_total:
  "list_all (col_ok fu row) cs \<Longrightarrow> \<exists>rd. columns_loop fu row cs acc = Inr rd"
proof (induction cs arbitrary: acc)
  case Nil
  then show ?case by simp
next
  case (Cons c cs)
  then obtain v where v: "row c = Some v" by (auto simp: col_ok_def split: option.splits)
  show ?case
  proof (cases "fu \<and> isinstance_str v")
    case True
    then obtain s where s: "v = StrV s" by (auto simp: isinstance_str_def split: pyval.splits)
    with Cons.prems v True have "ascii_str s" by (simp add: col_ok_def)
    then show ?thesis using Cons v s True by (simp add: unicode_def)
  next
    case False
    then show ?thesis using Cons v by auto
  qed
qed

lemma columns_loop_other:
  "columns_loop fu row cs acc = Inr rd \<Longrightarrow> k \<notin> set cs \<Longrightarrow> map_of rd k = map_of acc k"
proof (induction cs arbitrary: acc)
  case Nil
  then show ?case by simp
next
  case (Cons c cs)
  from Cons.prems(1) obtain v where
    a: "columns_loop fu row cs (od_set (=) c v acc) = Inr rd"
    by (auto split: option.splits if_splits sum.splits)
  from Cons.IH[OF a] Cons.prems(2) show ?case by (simp add: map_of_od_set)
qed

lemma columns_id_first: "\<exists>cs. columns e = ''id'' # cs \<and> ''id'' \<notin> set cs"
  by (cases e) simp_all

lemma ascii_unicode_of_str: "ascii_str s \<Longrightarrow> ascii_unicode (map of_char s)"
  by (simp add: ascii_str_def ascii_unicode_def list_all_iff)

lemma row_ok_columns:
  assumes "row_ok sk fu e row"
  shows "\<exists>rd i. columns_loop fu row (columns e) [] = Inr rd \<and> map_of rd ''id'' = Some i \<and>
           (sk \<longrightarrow> (\<exists>k. str i = Inr k))"
proof -
  obtain cs where cs: "columns e = ''id'' # cs" "''id'' \<notin> set cs"
    using columns_id_first by blast
  have all: "list_all (col_ok fu row) (''id'' # cs)"
    using assms unfolding row_ok_def cs by simp
  then obtain v where v: "row ''id'' = Some v" by (auto simp: col_ok_def split: option.splits)
  have rest: "list_all (col_ok fu row) cs" using all by simp
  define i where "i = (if fu \<and> isinstance_str v then (case v of StrV s \<Rightarrow> UnicodeV (map of_char s) | _ \<Rightarrow> v) else v)"
  have step: "columns_loop fu row (columns e) [] = columns_loop fu row cs [(''id'', i)]"
  proof (cases "fu \<and> isinstance_str v")
    case True
    then obtain s where s: "v = StrV s" by (auto simp: isinstance_str_def split: pyval.splits)
    with all v True have "ascii_str s" by (simp add: col_ok_def)
    then show ?thesis using v s True by (simp add: cs unicode_def i_def)
  next
    case False
    then show ?thesis using v by (auto simp: cs i_def)
  qed
  obtain rd where rd: "columns_loop fu row cs [(''id'', i)] = Inr rd"
    using columns_loop_total[OF rest] by blast
  have m: "map_of rd ''id'' = Some i"
    using columns_loop_other[OF rd cs(2)] by simp
  have "\<exists>k. str i = Inr k" if sk
  proof (cases v)
    case (IntV n)
    then show ?thesis by (simp add: i_def isinstance_str_def str_def)
  next
    case (StrV s)
    show ?thesis
    proof (cases fu)
      case True
      with all v StrV have "ascii_str s" by (simp add: col_ok_def)
      then show ?thesis using True StrV
        by (simp add: i_def isinstance_str_def str_def ascii_unicode_of_str)
    next
      case False
      then show ?thesis using StrV by (simp add: i_def str_def)
    qed
  next
    case (UnicodeV u)
    with assms v that have "ascii_unicode u" by (simp add: row_ok_def)
    then show ?thesis using UnicodeV by (simp add: i_def isinstance_str_def str_def)
  qed
  then show ?thesis using step rd m by auto
qed

lemma row_ok_keyed_row:
  assumes "map_of rd ''id'' = Some i" "sk \<longrightarrow> (\<exists>k. str i = Inr k)"
  shows "\<exists>p. keyed_row sk ik rd = Inr p"
proof -
  have "''id'' \<in> set (map fst rd)" using assms(1) by (metis map_of_eq_None_iff option.distinct(1) set_map)
  then show ?thesis using assms
    by (auto simp: keyed_row_def od_get_def od_del_def split: sum.splits)
qed

lemma rows_loop_total:
  "list_all (row_ok sk fu e) rows \<Longrightarrow> \<exists>t. rows_loop sk fu ik e rows acc = Inr t"
proof (induction rows arbitrary: acc)
  case Nil
  then show ?case by simp
next
  case (Cons row rows)
  then have "row_ok sk fu e row" by simp
  from row_ok_columns[OF this] obtain rd i where
    c: "columns_loop fu row (columns e) [] = Inr rd" and
    m: "map_of rd ''id'' = Some i" and s: "sk \<longrightarrow> (\<exists>k. str i = Inr k)" by blast
  from row_ok_keyed_row[OF m s] obtain p where p: "keyed_row sk ik rd = Inr p" by blast
  obtain k rd' where "p = (k, rd')" by (cases p)
  then show ?case using Cons c p by simp
qed

lemma entities_loop_total:
  "list_all (\<lambda>e. case td_dict self (table e) of None \<Rightarrow> False
                 | Some rows \<Rightarrow> list_all (row_ok sk fu e) rows) es \<Longrightarrow>
   \<exists>d. entities_loop self sk fu ik es acc = Inr d"
proof (induction es arbitrary: acc)
  case Nil
  then show ?case by simp
next
  case (Cons e es)
  then obtain rows where s: "td_dict self (table e) = Some rows"
    and r: "list_all (row_ok sk fu e) rows" by (auto split: option.splits)
  obtain t where t: "rows_loop sk fu ik e rows [] = Inr t"
    using rows_loop_total[OF r] by blast
  show ?case using Cons s t by simp
qed

text \<open>
  Claim C4. For every tree and every combination of the three flags: when \<^verbatim>\<open>toDict\<close>
  returns, the keys of the result are exactly the table names of the entity kinds with
  at least one row, in the order Uf, Mesorregiao, Microrregiao, Municipio, Distrito,
  Subdistrito, so a kind without rows contributes no key. And it does return on every
  loaded tree (every table present, every row with the columns of its kind, the text
  conversions asked for defined): leaving a table out raises nothing.
\<close>

theorem toDict_omits_empty_tables:
  "(\<forall>d. toDict self strKeys forceUnicode includeKey = Inr d \<longrightarrow>
        map fst d = map table (filter (has_rows self) entities)) \<and>
   (loaded strKeys forceUnicode self \<longrightarrow>
      (\<exists>d. toDict self strKeys forceUnicode includeKey = Inr d))"
  using toDict_keys[of self strKeys forceUnicode includeKey]
    entities_loop_total[where self = self and sk = strKeys and fu = forceUnicode
      and es = entities and ik = includeKey and acc = "[]"]
  by (simp add: toDict_def loaded_def)

theorem toDict_omits_empty_tables_witness:
  "loaded True True example_tree \<and>
   (\<exists>d. toDict example_tree True True True = Inr d \<and> map fst d = [''uf'', ''mesorregiao''])"
proof -
  have l: "loaded True True example_tree"
    by (simp add: loaded_def entities_def example_tree_def TerritorialData_def row_ok_def
        col_ok_def ascii_str_def)
  have f: "map table (filter (has_rows example_tree) entities) = [''uf'', ''mesorregiao'']"
    by (simp add: entities_def has_rows_def example_tree_def TerritorialData_def)
  note t = toDict_omits_empty_tables[of example_tree True True True]
  from t l obtain d where d: "toDict example_tree True True True = Inr d" by blast
  from t d have "map fst d = map table (filter (has_rows example_tree) entities)" by blast
  then show ?thesis using l d f by simp
qed

subsection \<open>Tables that are not there\<close>

lemma entities_loop_missing:
  "e \<in> set es \<Longrightarrow> td_dict self (table e) = None \<Longrightarrow>
   \<exists>err. entities_loop self sk fu ik es acc = Inl err"
proof (induction es arbitrary: acc)
  case Nil
  then show ?case by simp
next
  case (Cons x es)
  show ?case
  proof (cases "x = e")
    case True
    then show ?thesis using Cons.prems by simp
  next
    case False
    then have "e \<in> set es" using Cons.prems by simp
    from Cons.IH[OF this Cons.prems(2)] show ?thesis
      by (auto split: option.splits sum.splits)
  qed
qed

text \<open>
  Claim C10. On a freshly constructed TerritorialData, and on one on which only
  \<^verbatim>\<open>load\<close> has been called, \<^verbatim>\<open>toDict\<close> raises KeyError for the first table name,
  whatever the flags: \<^verbatim>\<open>_dict\<close> is empty and \<^verbatim>\<open>load\<close> only stores the raw data. More
  generally \<^verbatim>\<open>toDict\<close> raises, and returns no mapping, whenever \<^verbatim>\<open>_dict\<close> lacks the
  table name of one of the six entities.
\<close>

theorem toDict_needs_every_table:
  "toDict (TerritorialData b) strKeys forceUnicode includeKey = Inl (KeyError ''uf'') \<and>
   toDict (load rawdata (TerritorialData b)) strKeys forceUnicode includeKey = Inl (KeyError ''uf'') \<and>
   (\<forall>e \<in> set entities. td_dict self (table e) = None \<longrightarrow>
      (\<exists>err. toDict self strKeys forceUnicode includeKey = Inl err))"
  using entities_loop_missing[where es = entities and self = self and sk = strKeys
      and fu = forceUnicode and ik = includeKey and acc = "[]"]
  by (simp add: toDict_def TerritorialData_def load_def) (simp add: entities_def)

theorem toDict_needs_every_table_witness:
  "Distrito \<in> set entities \<and> td_dict partial_tree (table Distrito) = None \<and>
   (\<exists>err. toDict partial_tree False False False = Inl err)"
proof -
  have a: "Distrito \<in> set entities" by (simp add: entities_def)
  have b: "td_dict partial_tree (table Distrito) = None"
    by (simp add: partial_tree_def TerritorialData_def)
  from toDict_needs_every_table[of _ False False False _ partial_tree] a b
  have "\<exists>err. toDict partial_tree False False False = Inl err" by blast
  then show ?thesis using a b by simp
qed

section \<open>Properties of export\<close>

lemma write_stdout_ok:
  "write_stdout d w = (Inr (), w') \<Longrightarrow> stdout w' = stdout w @ [d] \<and> files w' = files w"
  by (auto simp: write_stdout_def split: pyval.splits if_splits)

lemma write_file_ok:
  "write_file f b d w = (Inr (), w') \<Longrightarrow>
   files w' = (files w)(f \<mapsto> [d]) \<and> stdout w' = stdout w"
  by (auto simp: write_file_def Let_def split: pyval.splits if_splits)

lemma logger_keeps:
  "files (logger l m w) = files w" "stdout (logger l m w) = stdout w"
  "decode (logger l m w) d = decode w d"
  by (simp_all add: logger_def decode_def split: pyval.splits)

text \<open>
  Claim C3. For every format name that the registry does not have, \<^verbatim>\<open>export\<close> raises
  the exception with the message "Unsupported output format." and changes nothing: the
  territorial base, the files, the standard output and the log are what they were.
\<close>

theorem export_unsupported_format:
  "FORMATS fmt = None \<Longrightarrow>
   export FORMATS fmt minified filename (self, w) =
     (Inl (Exception ''Unsupported output format.''), self, w)"
  by (simp add: export_def)

theorem export_unsupported_format_witness:
  "registry ''fictional-format'' = None \<and>
   export registry ''fictional-format'' False (Some ''auto'') (example_base, empty_world) =
     (Inl (Exception ''Unsupported output format.''), example_base, empty_world)"
proof -
  have n: "registry ''fictional-format'' = None" by (simp add: registry_def)
  from export_unsupported_format[of registry "''fictional-format''", OF n] n
  show ?thesis by simp
qed

text \<open>
  Claim C8. For every export that succeeds, with the data \<open>d\<close> that the exporter of the
  format computed (decoded as UTF-8 when the format is text and the data a byte string):
  given a file name, the file of that name holds \<open>d\<close>; given the name \<^verbatim>\<open>auto\<close>, the file
  named \<^verbatim>\<open>dtb\<close> followed by the extension of the format holds \<open>d\<close>; in both cases the
  standard output is untouched. Given no file name (\<^verbatim>\<open>None\<close>, or the empty string, which
  the code treats alike), \<open>d\<close> is written to the standard output and no file is touched.
\<close>

theorem export_destination:
  assumes "export FORMATS fmt minified filename (self, w) = (Inr (), self', w')"
  shows "\<exists>exporter d0 d.
           FORMATS fmt = Some exporter \<and> self' = self \<and>
           data exporter (tb_data self) minified = Inr d0 \<and>
           (if \<not> binary_format exporter \<and> \<not> isinstance_unicode d0 then decode w d0
            else Inr d0) = Inr d \<and>
           (case destination exporter filename of
              None \<Rightarrow> stdout w' = stdout w @ [d] \<and> files w' = files w
            | Some f \<Rightarrow> files w' = (files w)(f \<mapsto> [d]) \<and> stdout w' = stdout w)"
proof -
  from assms obtain exporter where e: "FORMATS fmt = Some exporter"
    by (auto simp: export_def split: option.splits)
  define w1 where "w1 =
     (if minified then
        logger Info (''Exporting database to minified '' @ format exporter @ '' format...'') w
      else logger Info (''Exporting database to '' @ format exporter @ '' format...'') w)"
  from assms e obtain d0 where d0: "data exporter (tb_data self) minified = Inr d0"
    by (auto simp: export_def Let_def split: sum.splits)
  from assms e d0 obtain d where
    d: "(if \<not> binary_format exporter \<and> \<not> isinstance_unicode d0 then decode w1 d0
         else Inr d0) = Inr d"
    unfolding export_def Let_def w1_def by (simp split: sum.splits)
  have d': "(if \<not> binary_format exporter \<and> \<not> isinstance_unicode d0 then decode w d0
             else Inr d0) = Inr d"
  proof -
    have e1: "decode w1 d0 = decode w d0" by (simp add: w1_def logger_keeps)
    show ?thesis using d unfolding e1 .
  qed
  define w2 where "w2 = logger Debug ''Done.'' w1"
  have k: "files w2 = files w" "stdout w2 = stdout w"
    by (simp_all add: w2_def w1_def logger_keeps)
  have r: "(case filename of
             None \<Rightarrow> (case write_stdout d w2 of (r, w3) \<Rightarrow> (r, self, w3))
           | Some f \<Rightarrow>
               if f = [] then (case write_stdout d w2 of (r, w3) \<Rightarrow> (r, self, w3))
               else (case write_file (if f = ''auto'' then ''dtb'' @ extension exporter else f)
                            (binary_format exporter) d w2 of (r, w3) \<Rightarrow> (r, self, w3)))
           = (Inr (), self', w')"
    using assms e d0 d unfolding export_def Let_def w1_def w2_def by simp
  have "self' = self \<and>
        (case destination exporter filename of
           None \<Rightarrow> stdout w' = stdout w2 @ [d] \<and> files w' = files w2
         | Some f \<Rightarrow> files w' = (files w2)(f \<mapsto> [d]) \<and> stdout w' = stdout w2)"
  proof (cases filename)
    case None
    with r show ?thesis
      by (auto simp: destination_def split: prod.splits dest: write_stdout_ok)
  next
    case (Some f)
    show ?thesis
    proof (cases "f = []")
      case True
      with r Some show ?thesis
        by (auto simp: destination_def split: prod.splits dest: write_stdout_ok)
    next
      case False
      with r Some show ?thesis
        by (auto simp: destination_def split: prod.splits dest: write_file_ok)
    qed
  qed
  then show ?thesis using e d0 d' unfolding k by blast
qed

lemma export_example_auto:
  "export registry ''xml'' False (Some ''auto'') (example_base, empty_world) =
     (Inr (), example_base,
      empty_world\<lparr>files := [''dtb.xml'' \<mapsto> [UnicodeV (map of_char ''<database/>'')]],
                  log := [(Info, ''Exporting database to xml format...''), (Debug, ''Done.'')]\<rparr>)"
  by (simp add: export_def registry_def xml_exporter_def empty_world_def logger_def
      isinstance_unicode_def decode_def ascii_str_def write_file_def Let_def)

lemma export_example_stdout:
  "export registry ''xml'' False None (example_base, empty_world) =
     (Inr (), example_base,
      empty_world\<lparr>stdout := [UnicodeV (map of_char ''<database/>'')],
                  log := [(Info, ''Exporting database to xml format...''), (Debug, ''Done.'')]\<rparr>)"
  by (simp add: export_def registry_def xml_exporter_def empty_world_def logger_def
      isinstance_unicode_def decode_def ascii_str_def write_stdout_def Let_def)

theorem export_destination_witness:
  "(\<exists>d w'. export registry ''xml'' False (Some ''auto'') (example_base, empty_world) =
             (Inr (), example_base, w') \<and>
           files w' = [''dtb.xml'' \<mapsto> [d]] \<and> stdout w' = []) \<and>
   (\<exists>d w'. export registry ''xml'' False None (example_base, empty_world) =
             (Inr (), example_base, w') \<and>
           files w' = Map.empty \<and> stdout w' = [d])"
proof -
  from export_destination[OF export_example_auto]
  obtain exporter d where
    "registry ''xml'' = Some exporter" and
    c: "(case destination exporter (Some ''auto'') of
           None \<Rightarrow>
             stdout (empty_world\<lparr>files := [''dtb.xml'' \<mapsto> [UnicodeV (map of_char ''<database/>'')]],
                  log := [(Info, ''Exporting database to xml format...''), (Debug, ''Done.'')]\<rparr>)
               = stdout empty_world @ [d] \<and>
             files (empty_world\<lparr>files := [''dtb.xml'' \<mapsto> [UnicodeV (map of_char ''<database/>'')]],
                  log := [(Info, ''Exporting database to xml format...''), (Debug, ''Done.'')]\<rparr>)
               = files empty_world
         | Some f \<Rightarrow>
             files (empty_world\<lparr>files := [''dtb.xml'' \<mapsto> [UnicodeV (map of_char ''<database/>'')]],
                  log := [(Info, ''Exporting database to xml format...''), (Debug, ''Done.'')]\<rparr>)
               = (files empty_world)(f \<mapsto> [d]) \<and>
             stdout (empty_world\<lparr>files := [''dtb.xml'' \<mapsto> [UnicodeV (map of_char ''<database/>'')]],
                  log := [(Info, ''Exporting database to xml format...''), (Debug, ''Done.'')]\<rparr>)
               = stdout empty_world)"
    by blast
  then have x: "exporter = xml_exporter" by (simp add: registry_def)
  have a: "\<exists>d w'. export registry ''xml'' False (Some ''auto'') (example_base, empty_world) =
             (Inr (), example_base, w') \<and>
           files w' = [''dtb.xml'' \<mapsto> [d]] \<and> stdout w' = []"
    using c unfolding x export_example_auto
    by (auto simp: destination_def xml_exporter_def empty_world_def)
  from export_destination[OF export_example_stdout]
  have b: "\<exists>d w'. export registry ''xml'' False None (example_base, empty_world) =
             (Inr (), example_base, w') \<and>
           files w' = Map.empty \<and> stdout w' = [d]"
    unfolding export_example_stdout
    by (auto simp: destination_def empty_world_def)
  show ?thesis using a b by (rule conjI)
qed

section \<open>Properties of the XML encoder\<close>

lemma field_accepted:
  "cv_ok lx (c, v) \<Longrightarrow> field lx c v = Inr (field_element (c, the_text v))"
  by (auto simp: cv_ok_def field_def field_element_def the_text_def split: colval.splits)

lemma fields_loop_accepted:
  "list_all (cv_ok lx) items \<Longrightarrow>
   fields_loop lx items children =
     Inr (children @ map field_element (map (\<lambda>cv. (fst cv, the_text (snd cv))) items))"
proof (induction items arbitrary: children)
  case Nil
  then show ?case by simp
next
  case (Cons cv items)
  obtain c v where cv: "cv = (c, v)" by (cases cv)
  from Cons.prems have "cv_ok lx (c, v)" "list_all (cv_ok lx) items" by (simp_all add: cv)
  then show ?case using Cons.IH by (simp add: cv field_accepted)
qed

lemma xml_rows_loop_accepted:
  "list_all (\<lambda>r. list_all (cv_ok lx) (snd r)) rows \<Longrightarrow>
   xml_rows_loop lx rows children =
     Inr (children @ map row_element (map (\<lambda>r. map (\<lambda>cv. (fst cv, the_text (snd cv))) (snd r)) rows))"
proof (induction rows arbitrary: children)
  case Nil
  then show ?case by simp
next
  case (Cons r rows)
  obtain k rd where r: "r = (k, rd)" by (cases r)
  from Cons.prems have "list_all (cv_ok lx) rd" "list_all (\<lambda>r. list_all (cv_ok lx) (snd r)) rows"
    by (simp_all add: r)
  then show ?case using Cons.IH by (simp add: r fields_loop_accepted row_element_def)
qed

lemma tables_loop_accepted:
  "list_all (table_ok lx) d \<Longrightarrow>
   tables_loop lx d children = Inr (children @ concat (map table_elements (records d)))"
proof (induction d arbitrary: children)
  case Nil
  then show ?case by (simp add: records_def)
next
  case (Cons t d)
  obtain n rows where t: "t = (n, rows)" by (cases t)
  from Cons.prems have t_ok: "table_ok lx (n, rows)" and d_ok: "list_all (table_ok lx) d"
    by (simp_all add: t)
  from t_ok have a: "comment_ok lx (ustr '' Table '' @ n @ ustr '' '')" "string_ok lx n"
    "list_all (\<lambda>r. list_all (cv_ok lx) (snd r)) rows"
    by (simp_all add: table_ok_def)
  have "records (t # d) = (n, map (\<lambda>r. map (\<lambda>cv. (fst cv, the_text (snd cv))) (snd r)) rows) # records d"
    by (simp add: records_def t)
  then show ?case using a Cons.IH[OF d_ok]
    by (simp add: t xml_rows_loop_accepted table_elements_def)
qed

lemma table_names_document: "table_names (document n ts) = map fst ts"
  by (induction ts) (simp_all add: document_def table_elements_def ustr_def)

lemma fst_records: "map fst (records d) = map fst d"
  by (simp add: records_def comp_def)

lemma encode_tree_accepted:
  assumes "accepted lx dataset_name d"
  shows "encode_tree lx dataset_name d = Inr (document dataset_name (records d))"
proof -
  from assms have "string_ok lx dataset_name" "list_all (table_ok lx) d"
    by (simp_all add: accepted_def)
  then show ?thesis by (simp add: encode_tree_def tables_loop_accepted document_def)
qed

text \<open>
  The encoder has no test for a table without rows: serialized data that held one would
  get a \<^verbatim>\<open>table\<close> element for it. Which tables reach the encoder is decided by the
  serializer.
\<close>

lemma encode_tree_keeps_empty_table:
  "map_sum id table_names
     (encode_tree permissive (ustr ''dtb'') (one_state @ [(ustr ''mesorregiao'', [])])) =
   Inr [ustr ''uf'', ustr ''mesorregiao'']"
proof -
  have a: "accepted permissive (ustr ''dtb'') (one_state @ [(ustr ''mesorregiao'', [])])"
    by (simp add: accepted_def table_ok_def cv_ok_def permissive_def one_state_def)
  show ?thesis
    unfolding encode_tree_accepted[OF a]
    by (simp add: table_names_document fst_records one_state_def)
qed

subsection \<open>The serialized data of a tree\<close>








end
